theory Spec2Isabelle
  imports Main
begin

section \<open>Data model\<close>

text \<open>
  A \<open>Job\<close> object of \<open>job_scheduler.py\<close>: the six constructor arguments plus the two
  fields the constructor initialises itself. \<open>status\<close> is a Python string (the code
  compares it with literals and with the free-form argument of \<open>clear -s\<close>), \<open>pid\<close> is
  an integer or \<open>None\<close>.
\<close>

record job =
  job_id :: int
  user :: string
  command :: string
  priority :: int
  memory :: int
  compute :: int
  status :: string
  pid :: "int option"

text \<open>\<open>Job.__init__\<close>: a fresh job is \<open>queued\<close> and has no pid.\<close>

definition Job :: "int \<Rightarrow> string \<Rightarrow> string \<Rightarrow> int \<Rightarrow> int \<Rightarrow> int \<Rightarrow> job" where
  "Job i u c p m k =
     \<lparr>job_id = i, user = u, command = c, priority = p, memory = m, compute = k,
      status = ''queued'', pid = None\<rparr>"

text \<open>
  The persisted document \<open>jobs.json\<close>: absent, or the pair of the two job lists
  \<open>job_queue\<close> and \<open>job_history\<close>. \<open>to_dict\<close>/\<open>from_dict\<close> copy all eight fields, so
  the decoded lists stand for the file's content; every load builds fresh objects, so
  the loaded queue and history share no object.
\<close>

type_synonym jobs_file = "(job list \<times> job list) option"

definition load_jobs :: "jobs_file \<Rightarrow> job list \<times> job list" where
  "load_jobs f = (case f of None \<Rightarrow> ([], []) | Some d \<Rightarrow> d)"

definition save_jobs :: "job list \<Rightarrow> job list \<Rightarrow> jobs_file" where
  "save_jobs job_queue job_history = Some (job_queue, job_history)"

abbreviation queue_of :: "jobs_file \<Rightarrow> job list" where
  "queue_of f \<equiv> fst (load_jobs f)"

abbreviation history_of :: "jobs_file \<Rightarrow> job list" where
  "history_of f \<equiv> snd (load_jobs f)"

section \<open>Operations\<close>

subsection \<open>\<open>submit_job\<close>\<close>

definition submit_job :: "string \<Rightarrow> string \<Rightarrow> int \<Rightarrow> int \<Rightarrow> int \<Rightarrow> jobs_file \<Rightarrow> jobs_file" where
  "submit_job u c p m k f =
     (case load_jobs f of (job_queue, job_history) \<Rightarrow>
        let job = Job (int (length job_history) + 1) u c p m k
        in save_jobs (job_queue @ [job]) (job_history @ [job]))"

subsection \<open>\<open>run_next_job\<close>\<close>

text \<open>
  The environment of a dispatch: \<open>subprocess.Popen\<close> either yields a child process with
  a pid or raises; the code has no handler, so the exception leaves \<open>run_next_job\<close> with
  the file as it was last saved. \<open>ProbeError\<close> is the second uncaught exception of the
  program, raised by a process query of \<open>update_job_status\<close>.
\<close>

datatype popen = Popen int | OSError

datatype error = LaunchError | ProbeError

datatype outcome = NoJob | OnHold int | Launched job

text \<open>
  The history edit the dispatcher performs three times (lines 82-83, 92-93, 106-107):
  drop every entry with the job's id, then append the job.
\<close>

definition replace_status :: "job \<Rightarrow> job list \<Rightarrow> job list" where
  "replace_status job job_history = [j \<leftarrow> job_history. job_id j \<noteq> job_id job] @ [job]"

text \<open>
  First transaction (lines 73-85 and 111-116): pop the head, test the memory, launch.
  The result pairs what happened with the file left behind.
\<close>

definition admit :: "int \<Rightarrow> (string \<Rightarrow> popen) \<Rightarrow> jobs_file \<Rightarrow> (error + outcome) \<times> jobs_file" where
  "admit available shell f =
     (case load_jobs f of (job_queue, job_history) \<Rightarrow>
        (case job_queue of
           [] \<Rightarrow> (Inr NoJob, f)
         | job # rest \<Rightarrow>
             if available \<ge> memory job then
               (case shell (command job) of
                  OSError \<Rightarrow> (Inl LaunchError, f)
                | Popen p \<Rightarrow>
                    let job' = job\<lparr>status := ''running'', pid := Some p\<rparr>
                    in (Inr (Launched job'), save_jobs rest (replace_status job' job_history)))
             else (Inr (OnHold (job_id job)), save_jobs (job # rest) job_history)))"

text \<open>One pass of the polling loop (lines 89-95).\<close>

definition checkpoint :: "job \<Rightarrow> jobs_file \<Rightarrow> jobs_file" where
  "checkpoint job f =
     (case load_jobs f of (job_queue, job_history) \<Rightarrow>
        save_jobs job_queue (replace_status job job_history))"

text \<open>The final status update (lines 98-109).\<close>

definition finalize :: "job \<Rightarrow> int \<Rightarrow> jobs_file \<Rightarrow> jobs_file" where
  "finalize job returncode f =
     (case load_jobs f of (job_queue, job_history) \<Rightarrow>
        let job' = job\<lparr>status := (if returncode = 0 then ''executed'' else ''failed''),
                        pid := None\<rparr>
        in save_jobs job_queue (replace_status job' job_history))"

text \<open>
  The polling loop of an invocation that runs undisturbed, for a child that is seen
  alive \<open>polls\<close> times before it exits.
\<close>

fun supervise :: "nat \<Rightarrow> job \<Rightarrow> jobs_file \<Rightarrow> jobs_file" where
  "supervise 0 job f = f"
| "supervise (Suc n) job f = supervise n job (checkpoint job f)"

text \<open>
  A whole invocation with no other transaction in between. A child that never exits
  keeps the invocation in the loop; the interleaved model below covers that case as a
  dispatcher that is never finalised.
\<close>

definition run_next_job ::
  "int \<Rightarrow> (string \<Rightarrow> popen) \<Rightarrow> nat \<Rightarrow> int \<Rightarrow> jobs_file \<Rightarrow> (error + outcome) \<times> jobs_file" where
  "run_next_job available shell polls returncode f =
     (case admit available shell f of
        (Inr (Launched job), f') \<Rightarrow>
          (Inr (Launched job), finalize job returncode (supervise polls job f'))
      | r \<Rightarrow> r)"

subsection \<open>\<open>update_job_status\<close>\<close>

text \<open>
  What the \<open>try\<close> block of lines 125-135 can observe of a pid: \<open>psutil.Process\<close> or
  \<open>status()\<close> raises \<open>NoSuchProcess\<close>; the status is zombie; the status is dead; neither,
  and \<open>is_running()\<close> is false; neither, and it is true; or a call raises another
  exception (\<open>ValueError\<close> for a negative pid, \<open>AccessDenied\<close>), which the \<open>except\<close>
  clause of line 133 does not catch.
\<close>

datatype proc_obs =
  NoSuchProcess | StatusZombie | StatusDead | NotRunning | IsRunning | OtherException

text \<open>
  The body of the loop up to line 135 for one job: the job as the \<open>try\<close> block leaves
  it, or the exception that escapes.
\<close>

definition reconcile_job :: "(int \<Rightarrow> proc_obs) \<Rightarrow> job \<Rightarrow> error + job" where
  "reconcile_job probe job =
     (case pid job of
        None \<Rightarrow> Inr job
      | Some p \<Rightarrow>
          if status job = ''running'' then
            (case probe p of
               StatusZombie \<Rightarrow> Inr (job\<lparr>status := ''executed'', pid := None\<rparr>)
             | StatusDead \<Rightarrow> Inr (job\<lparr>status := ''executed'', pid := None\<rparr>)
             | NotRunning \<Rightarrow> Inr (job\<lparr>status := ''failed'', pid := None\<rparr>)
             | IsRunning \<Rightarrow> Inr job
             | NoSuchProcess \<Rightarrow> Inr (job\<lparr>status := ''failed'', pid := None\<rparr>)
             | OtherException \<Rightarrow> Inl ProbeError)
          else Inr job)"

text \<open>
  The \<open>for\<close> loop of lines 123-137, with \<open>updated_job_history\<close> as accumulator. An
  exception leaves the loop at once.
\<close>

fun update_loop :: "(int \<Rightarrow> proc_obs) \<Rightarrow> job list \<Rightarrow> job list \<Rightarrow> error + job list" where
  "update_loop probe [] updated_job_history = Inr updated_job_history"
| "update_loop probe (job # js) updated_job_history =
     (case reconcile_job probe job of
        Inl e \<Rightarrow> Inl e
      | Inr job' \<Rightarrow>
          update_loop probe js
            (if status job' \<noteq> ''executed'' then updated_job_history @ [job']
             else updated_job_history))"

text \<open>
  \<open>save_jobs\<close> (line 138) comes after the loop: when the loop is left by an exception
  nothing is saved and the file stays as it was.
\<close>

definition update_job_status :: "(int \<Rightarrow> proc_obs) \<Rightarrow> jobs_file \<Rightarrow> (error + unit) \<times> jobs_file" where
  "update_job_status probe f =
     (case load_jobs f of (job_queue, job_history) \<Rightarrow>
        (case update_loop probe job_history [] of
           Inl e \<Rightarrow> (Inl e, f)
         | Inr updated_job_history \<Rightarrow> (Inr (), save_jobs job_queue updated_job_history)))"

subsection \<open>\<open>prioritize_job\<close> and \<open>clear_jobs_by_status\<close>\<close>

text \<open>
  The loop stops at the first queue entry with the id; \<open>deque.remove\<close> then deletes the
  first element equal to that object, the file is saved and the loop is left. When no
  entry has the id nothing is saved.
\<close>

definition prioritize_job :: "int \<Rightarrow> jobs_file \<Rightarrow> jobs_file" where
  "prioritize_job jid f =
     (case load_jobs f of (job_queue, job_history) \<Rightarrow>
        (case List.find (\<lambda>job. job_id job = jid) job_queue of
           None \<Rightarrow> f
         | Some job \<Rightarrow> save_jobs (job # remove1 job job_queue) job_history))"

definition clear_jobs_by_status :: "string \<Rightarrow> jobs_file \<Rightarrow> jobs_file" where
  "clear_jobs_by_status s f =
     (case load_jobs f of (job_queue, job_history) \<Rightarrow>
        save_jobs [job \<leftarrow> job_queue. status job \<noteq> s] [job \<leftarrow> job_history. status job \<noteq> s])"

section \<open>Interleaved invocations\<close>

text \<open>
  Every transaction runs under the file lock, so a run of the system is a sequence of
  transactions on the file. A dispatcher that has launched its child keeps its \<open>job\<close>
  object between its transactions; \<open>dispatchers\<close> lists the objects of the invocations
  that are still supervising.
\<close>

record system =
  disk :: jobs_file
  dispatchers :: "job list"

datatype event =
    Submit string string int int int
  | Admit int "string \<Rightarrow> popen"
  | Checkpoint nat
  | Finalize nat int
  | Reconcile "int \<Rightarrow> proc_obs"
  | Prioritize int
  | Clear string

definition boot :: system where
  "boot = \<lparr>disk = None, dispatchers = []\<rparr>"

fun step :: "event \<Rightarrow> system \<Rightarrow> system" where
  "step (Submit u c p m k) s = s\<lparr>disk := submit_job u c p m k (disk s)\<rparr>"
| "step (Admit available shell) s =
     (case admit available shell (disk s) of
        (Inr (Launched job), f') \<Rightarrow> s\<lparr>disk := f', dispatchers := dispatchers s @ [job]\<rparr>
      | (_, f') \<Rightarrow> s\<lparr>disk := f'\<rparr>)"
| "step (Checkpoint i) s =
     (if i < length (dispatchers s)
      then s\<lparr>disk := checkpoint (dispatchers s ! i) (disk s)\<rparr> else s)"
| "step (Finalize i returncode) s =
     (if i < length (dispatchers s)
      then s\<lparr>disk := finalize (dispatchers s ! i) returncode (disk s),
             dispatchers := take i (dispatchers s) @ drop (Suc i) (dispatchers s)\<rparr>
      else s)"
| "step (Reconcile probe) s = s\<lparr>disk := snd (update_job_status probe (disk s))\<rparr>"
| "step (Prioritize jid) s = s\<lparr>disk := prioritize_job jid (disk s)\<rparr>"
| "step (Clear st) s = s\<lparr>disk := clear_jobs_by_status st (disk s)\<rparr>"

definition exec :: "event list \<Rightarrow> system" where
  "exec es = foldl (\<lambda>s e. step e s) boot es"

subsection \<open>Concrete environments\<close>

text \<open>A shell that starts every command under the given pid, and one that cannot start any.\<close>

definition shell_pid :: "int \<Rightarrow> string \<Rightarrow> popen" where
  "shell_pid p c = Popen p"

definition shell_down :: "string \<Rightarrow> popen" where
  "shell_down c = OSError"

text \<open>
  Process tables in which every pid is missing, a zombie, alive, or cannot be queried.
\<close>

definition all_gone :: "int \<Rightarrow> proc_obs" where
  "all_gone p = NoSuchProcess"

definition all_zombie :: "int \<Rightarrow> proc_obs" where
  "all_zombie p = StatusZombie"

definition all_alive :: "int \<Rightarrow> proc_obs" where
  "all_alive p = IsRunning"

definition all_denied :: "int \<Rightarrow> proc_obs" where
  "all_denied p = OtherException"

text \<open>Sample jobs and files for the concrete runs below.\<close>

definition job1 :: job where
  "job1 = Job 1 ''alice'' ''true'' 1 1048576 10"

definition job2 :: job where
  "job2 = Job 2 ''bob'' ''true'' 1 1048576 10"

definition running1 :: job where
  "running1 = job1\<lparr>status := ''running'', pid := Some 4242\<rparr>"

definition failed1 :: job where
  "failed1 = job1\<lparr>status := ''failed''\<rparr>"

definition two_queued :: jobs_file where
  "two_queued = Some ([job1, job2], [job1, job2])"

definition one_failed :: jobs_file where
  "one_failed = Some ([job2], [failed1, job2])"


definition one_running :: jobs_file where
  "one_running = Some ([job2], [running1, job2])"

subsection \<open>Reading the reconcile loop\<close>

text \<open>
  Two notions for the proofs: the job a completed loop body leaves, and whether the
  sweep over a list of jobs is left by an exception.
\<close>

definition reclassify :: "(int \<Rightarrow> proc_obs) \<Rightarrow> job \<Rightarrow> job" where
  "reclassify probe job = (case reconcile_job probe job of Inl e \<Rightarrow> job | Inr job' \<Rightarrow> job')"

definition aborts :: "(int \<Rightarrow> proc_obs) \<Rightarrow> job list \<Rightarrow> bool" where
  "aborts probe js = list_ex (\<lambda>job. reconcile_job probe job = Inl ProbeError) js"

subsection \<open>The pid invariant\<close>

definition pid_iff_running :: "job \<Rightarrow> bool" where
  "pid_iff_running j = ((pid j \<noteq> None) = (status j = ''running''))"

text \<open>The object a dispatcher holds between admission and the final update.\<close>

definition supervising :: "job \<Rightarrow> bool" where
  "supervising j = (status j = ''running'' \<and> pid j \<noteq> None)"

definition consistent :: "system \<Rightarrow> bool" where
  "consistent s =
     (list_all pid_iff_running (queue_of (disk s)) \<and>
      list_all pid_iff_running (history_of (disk s)) \<and>
      list_all supervising (dispatchers s))"

subsection \<open>Queue and History coherence\<close>

text \<open>Every Queue entry is \<open>queued\<close> and occurs in History with the same field values.\<close>

definition coherent :: "jobs_file \<Rightarrow> bool" where
  "coherent f = list_all (\<lambda>j. status j = ''queued'' \<and> j \<in> set (history_of f)) (queue_of f)"

section \<open>The operations, unfolded\<close>

lemma load_jobs_None [simp]: "load_jobs None = ([], [])"
  by (simp add: load_jobs_def)

lemma load_jobs_Some [simp]: "load_jobs (Some d) = d"
  by (simp add: load_jobs_def)

lemma load_jobs_save_jobs [simp]: "load_jobs (save_jobs q h) = (q, h)"
  by (simp add: save_jobs_def)

lemma nonempty_queue_file:
  assumes "queue_of f = job # rest"
  shows "f = Some (job # rest, history_of f)"
proof (cases f)
  case None
  with assms show ?thesis by simp
next
  case (Some d)
  with assms show ?thesis by (cases d) simp
qed

lemma submit_job_eq:
  "submit_job u c p m k f =
     save_jobs (queue_of f @ [Job (int (length (history_of f)) + 1) u c p m k])
               (history_of f @ [Job (int (length (history_of f)) + 1) u c p m k])"
  by (simp add: submit_job_def Let_def split: prod.splits)

lemma checkpoint_eq:
  "checkpoint job f = save_jobs (queue_of f) (replace_status job (history_of f))"
  by (simp add: checkpoint_def split: prod.splits)

lemma finalize_eq:
  "finalize job rc f =
     save_jobs (queue_of f)
       (replace_status (job\<lparr>status := (if rc = 0 then ''executed'' else ''failed''), pid := None\<rparr>)
          (history_of f))"
  by (simp add: finalize_def Let_def split: prod.splits)

lemma reconcile_job_cases:
  "reconcile_job probe j = Inl ProbeError \<or> reconcile_job probe j = Inr (reclassify probe j)"
  by (simp add: reclassify_def reconcile_job_def split: option.splits proc_obs.splits)

lemma update_loop_eq:
  "update_loop probe js acc =
     (if aborts probe js then Inl ProbeError
      else Inr (acc @ [j \<leftarrow> map (reclassify probe) js. status j \<noteq> ''executed'']))"
proof (induction js arbitrary: acc)
  case Nil
  show ?case by (simp add: aborts_def)
next
  case (Cons job js)
  from reconcile_job_cases [of probe job] show ?case
  proof
    assume "reconcile_job probe job = Inl ProbeError"
    then show ?thesis by (simp add: aborts_def)
  next
    assume r: "reconcile_job probe job = Inr (reclassify probe job)"
    then have "aborts probe (job # js) = aborts probe js" by (simp add: aborts_def)
    then show ?thesis using r by (simp add: Cons.IH)
  qed
qed

lemma update_job_status_eq:
  "update_job_status probe f =
     (if aborts probe (history_of f) then (Inl ProbeError, f)
      else (Inr (),
            save_jobs (queue_of f)
              [j \<leftarrow> map (reclassify probe) (history_of f). status j \<noteq> ''executed'']))"
  by (cases "load_jobs f") (simp add: update_job_status_def update_loop_eq)

lemma clear_jobs_by_status_eq:
  "clear_jobs_by_status s f =
     save_jobs [j \<leftarrow> queue_of f. status j \<noteq> s] [j \<leftarrow> history_of f. status j \<noteq> s]"
  by (simp add: clear_jobs_by_status_def split: prod.splits)

lemma admit_eq:
  "admit a sh f =
     (case queue_of f of
        [] \<Rightarrow> (Inr NoJob, f)
      | job # rest \<Rightarrow>
          if memory job \<le> a then
            (case sh (command job) of
               OSError \<Rightarrow> (Inl LaunchError, f)
             | Popen p \<Rightarrow>
                 (Inr (Launched (job\<lparr>status := ''running'', pid := Some p\<rparr>)),
                  save_jobs rest
                    (replace_status (job\<lparr>status := ''running'', pid := Some p\<rparr>) (history_of f))))
          else (Inr (OnHold (job_id job)), save_jobs (job # rest) (history_of f)))"
  by (cases "load_jobs f") (simp add: admit_def Let_def split: list.splits popen.splits)

lemma admit_empty: "queue_of f = [] \<Longrightarrow> admit a sh f = (Inr NoJob, f)"
  by (simp add: admit_eq)

lemma admit_hold:
  assumes "queue_of f = job # rest" "a < memory job"
  shows "admit a sh f = (Inr (OnHold (job_id job)), f)"
proof -
  have "f = save_jobs (job # rest) (history_of f)"
    using assms(1) by (simp add: save_jobs_def nonempty_queue_file)
  then show ?thesis using assms
    by (simp add: admit_eq)
qed

lemma admit_fail:
  "queue_of f = job # rest \<Longrightarrow> memory job \<le> a \<Longrightarrow> sh (command job) = OSError \<Longrightarrow>
   admit a sh f = (Inl LaunchError, f)"
  by (simp add: admit_eq)

lemma admit_launch:
  "queue_of f = job # rest \<Longrightarrow> memory job \<le> a \<Longrightarrow> sh (command job) = Popen p \<Longrightarrow>
   admit a sh f =
     (Inr (Launched (job\<lparr>status := ''running'', pid := Some p\<rparr>)),
      save_jobs rest (replace_status (job\<lparr>status := ''running'', pid := Some p\<rparr>) (history_of f)))"
  by (simp add: admit_eq)

lemma find_first:
  "(\<forall>x \<in> set xs. \<not> P x) \<Longrightarrow> P y \<Longrightarrow> List.find P (xs @ y # ys) = Some y"
  by (induction xs) simp_all

lemma remove1_first:
  "(\<forall>x \<in> set xs. x \<noteq> y) \<Longrightarrow> remove1 y (xs @ y # ys) = xs @ ys"
  by (induction xs) auto

lemma prioritize_job_eq:
  "prioritize_job jid f =
     (case List.find (\<lambda>job. job_id job = jid) (queue_of f) of
        None \<Rightarrow> f
      | Some job \<Rightarrow> save_jobs (job # remove1 job (queue_of f)) (history_of f))"
  by (cases "load_jobs f") (simp add: prioritize_job_def split: option.splits)

lemma prioritize_job_found:
  assumes "queue_of f = xs @ job # ys" "job_id job = jid" "\<forall>x \<in> set xs. job_id x \<noteq> jid"
  shows "prioritize_job jid f = save_jobs (job # xs @ ys) (history_of f)"
proof -
  have "List.find (\<lambda>j. job_id j = jid) (xs @ job # ys) = Some job"
    using assms(2,3) by (intro find_first) simp_all
  moreover have "remove1 job (xs @ job # ys) = xs @ ys"
    using assms(2,3) by (intro remove1_first) auto
  ultimately show ?thesis using assms(1)
    by (simp add: prioritize_job_eq)
qed

lemma prioritize_job_absent:
  assumes "\<forall>x \<in> set (queue_of f). job_id x \<noteq> jid"
  shows "prioritize_job jid f = f"
proof -
  have "List.find (\<lambda>job. job_id job = jid) (queue_of f) = None"
    using assms by (simp add: find_None_iff)
  then show ?thesis by (simp add: prioritize_job_eq)
qed

section \<open>Invariant preservation\<close>



lemma reclassify_pid_iff_running:
  "pid_iff_running j \<Longrightarrow> pid_iff_running (reclassify probe j)"
  by (auto simp add: reclassify_def reconcile_job_def pid_iff_running_def
      split: option.splits proc_obs.splits)

lemma replace_status_all:
  "list_all P h \<Longrightarrow> P j \<Longrightarrow> list_all P (replace_status j h)"
  by (simp add: replace_status_def list_all_iff)

lemma consistent_boot: "consistent boot"
  by (simp add: consistent_def boot_def)

lemma step_consistent:
  assumes "consistent s"
  shows "consistent (step e s)"
proof (cases e)
  case (Submit u c p m k)
  then show ?thesis using assms
    by (simp add: consistent_def submit_job_eq Job_def pid_iff_running_def)
next
  case (Admit a sh)
  show ?thesis
  proof (cases "queue_of (disk s)")
    case Nil
    then show ?thesis using assms Admit by (simp add: consistent_def admit_eq)
  next
    case (Cons job rest)
    show ?thesis
    proof (cases "sh (command job)")
      case (Popen p)
      then show ?thesis using assms Admit Cons
        by (simp add: consistent_def admit_eq replace_status_all pid_iff_running_def supervising_def)
    next
      case OSError
      then show ?thesis using assms Admit Cons by (simp add: consistent_def admit_eq)
    qed
  qed
next
  case (Checkpoint i)
  show ?thesis
  proof (cases "i < length (dispatchers s)")
    case True
    then have "supervising (dispatchers s ! i)"
      using assms by (simp add: consistent_def list_all_length)
    then have "pid_iff_running (dispatchers s ! i)"
      by (simp add: supervising_def pid_iff_running_def)
    then show ?thesis using assms Checkpoint True
      by (simp add: consistent_def checkpoint_eq replace_status_all)
  next
    case False
    then show ?thesis using assms Checkpoint by simp
  qed
next
  case (Finalize i rc)
  show ?thesis
  proof (cases "i < length (dispatchers s)")
    case True
    have "list_all supervising (take i (dispatchers s) @ drop (Suc i) (dispatchers s))"
      using assms by (auto simp add: consistent_def list_all_iff dest: in_set_takeD in_set_dropD)
    then show ?thesis using assms Finalize True
      by (simp add: consistent_def finalize_eq replace_status_all pid_iff_running_def)
  next
    case False
    then show ?thesis using assms Finalize by simp
  qed
next
  case (Reconcile probe)
  then show ?thesis using assms
    by (auto simp add: consistent_def update_job_status_eq list_all_iff reclassify_pid_iff_running)
next
  case (Prioritize jid)
  show ?thesis
  proof (cases "List.find (\<lambda>job. job_id job = jid) (queue_of (disk s))")
    case None
    then show ?thesis using assms Prioritize by (simp add: consistent_def prioritize_job_eq)
  next
    case (Some job)
    then have "job \<in> set (queue_of (disk s))"
      by (auto simp add: find_Some_iff)
    then show ?thesis using assms Prioritize Some
      by (auto simp add: consistent_def prioritize_job_eq list_all_iff dest: notin_set_remove1)
  qed
next
  case (Clear st)
  then show ?thesis using assms
    by (simp add: consistent_def clear_jobs_by_status_eq list_all_iff)
qed

lemma exec_snoc: "exec (es @ [e]) = step e (exec es)"
  by (simp add: exec_def)

lemma exec_consistent: "consistent (exec es)"
  by (induction es rule: rev_induct) (simp_all add: exec_snoc step_consistent, simp add: exec_def consistent_boot)

section \<open>Reconciliation and retention\<close>



lemma reclassify_id [simp]: "job_id (reclassify probe j) = job_id j"
  by (simp add: reclassify_def reconcile_job_def split: option.splits proc_obs.splits)

lemma reclassify_other:
  "status j \<noteq> ''running'' \<Longrightarrow> reclassify probe j = j"
  by (simp add: reclassify_def reconcile_job_def split: option.splits)

lemma reconcile_job_other:
  "status j \<noteq> ''running'' \<Longrightarrow> reconcile_job probe j = Inr j"
  by (simp add: reconcile_job_def split: option.splits)


lemma update_job_status_keeps:
  assumes "j \<in> set (history_of f)" "status j \<noteq> ''running''" "status j \<noteq> ''executed''"
  shows "j \<in> set (history_of (snd (update_job_status probe f)))"
proof -
  have "reclassify probe j = j" using assms(2) by (rule reclassify_other)
  moreover have "reclassify probe j \<in> reclassify probe ` set (history_of f)"
    using assms(1) by (rule imageI)
  ultimately show ?thesis using assms(1,3)
    by (simp add: update_job_status_eq)
qed


lemma replace_status_last: "job \<in> set (replace_status job h)"
  by (simp add: replace_status_def)





section \<open>Ids and coherence\<close>

text \<open>
  While History only grows its ids are \<open>1, ..., n\<close>: a submission extends the run by one.
\<close>

lemma submit_job_consecutive_ids:
  assumes "map job_id (history_of f) = map int [1..<Suc n]"
  shows "map job_id (history_of (submit_job u c p m k f)) = map int [1..<Suc (Suc n)]"
proof -
  have "length (map job_id (history_of f)) = length (map int [1..<Suc n])"
    using assms by simp
  then have "length (history_of f) = n" by simp
  then show ?thesis using assms by (simp add: submit_job_eq Job_def)
qed

lemma supervise_queue: "queue_of (supervise n job f) = queue_of f"
  by (induction n arbitrary: f) (simp_all add: checkpoint_eq)

text \<open>
  A transaction keeps Queue and History coherent as long as the ids of the queued jobs
  and of the jobs under supervision are pairwise different: the history edit by id then
  removes no entry that a queued job needs.
\<close>

lemma step_coherent:
  assumes "coherent (disk s)"
    and "distinct (map job_id (queue_of (disk s) @ dispatchers s))"
  shows "coherent (disk (step e s))"
proof (cases e)
  case (Submit u c p m k)
  then show ?thesis using assms(1)
    by (simp add: coherent_def submit_job_eq Job_def list_all_iff)
next
  case (Admit a sh)
  show ?thesis
  proof (cases "queue_of (disk s)")
    case Nil
    then show ?thesis using assms(1) Admit by (simp add: admit_eq)
  next
    case (Cons job rest)
    have "job_id job \<notin> job_id ` set rest"
      using assms(2) Cons by simp
    then have ids: "\<forall>j \<in> set rest. job_id j \<noteq> job_id job"
      by (metis imageI)
    have "\<forall>j \<in> set rest. status j = ''queued'' \<and> j \<in> set (history_of (disk s))"
      using assms(1) Cons by (simp add: coherent_def list_all_iff)
    with ids have rest: "\<forall>j \<in> set rest. job_id j \<noteq> job_id job \<and> status j = ''queued''
        \<and> j \<in> set (history_of (disk s))"
      by blast
    have hold: "coherent (save_jobs (job # rest) (history_of (disk s)))"
      using assms(1) Cons by (simp add: coherent_def)
    show ?thesis
    proof (cases "sh (command job)")
      case (Popen p)
      have "coherent (save_jobs rest
          (replace_status (job\<lparr>status := ''running'', pid := Some p\<rparr>) (history_of (disk s))))"
        using rest by (simp add: coherent_def list_all_iff replace_status_def)
      then show ?thesis using Admit Cons Popen hold by (simp add: admit_eq)
    next
      case OSError
      then show ?thesis using assms(1) Admit Cons hold by (simp add: admit_eq)
    qed
  qed
next
  case (Checkpoint i)
  show ?thesis
  proof (cases "i < length (dispatchers s)")
    case True
    then have "dispatchers s ! i \<in> set (dispatchers s)" by simp
    then have "\<forall>j \<in> set (queue_of (disk s)). job_id j \<noteq> job_id (dispatchers s ! i)"
      using assms(2) by auto
    then show ?thesis using assms(1) Checkpoint True
      by (simp add: coherent_def list_all_iff checkpoint_eq replace_status_def)
  next
    case False
    then show ?thesis using assms(1) Checkpoint by simp
  qed
next
  case (Finalize i rc)
  show ?thesis
  proof (cases "i < length (dispatchers s)")
    case True
    then have "dispatchers s ! i \<in> set (dispatchers s)" by simp
    then have "\<forall>j \<in> set (queue_of (disk s)). job_id j \<noteq> job_id (dispatchers s ! i)"
      using assms(2) by auto
    then show ?thesis using assms(1) Finalize True
      by (simp add: coherent_def list_all_iff finalize_eq replace_status_def)
  next
    case False
    then show ?thesis using assms(1) Finalize by simp
  qed
next
  case (Reconcile probe)
  have "\<And>j. j \<in> set (history_of (disk s)) \<Longrightarrow> status j = ''queued'' \<Longrightarrow>
      j \<in> set (history_of (snd (update_job_status probe (disk s))))"
    by (rule update_job_status_keeps) simp_all
  moreover have "queue_of (snd (update_job_status probe (disk s))) = queue_of (disk s)"
    by (simp add: update_job_status_eq)
  ultimately show ?thesis using assms(1) Reconcile
    by (simp add: coherent_def list_all_iff)
next
  case (Prioritize jid)
  show ?thesis
  proof (cases "List.find (\<lambda>job. job_id job = jid) (queue_of (disk s))")
    case None
    then show ?thesis using assms(1) Prioritize by (simp add: prioritize_job_eq)
  next
    case (Some job)
    then have "job \<in> set (queue_of (disk s))"
      by (auto simp add: find_Some_iff)
    then show ?thesis using assms(1) Prioritize Some
      by (auto simp add: coherent_def prioritize_job_eq list_all_iff dest: notin_set_remove1)
  qed
next
  case (Clear st)
  then show ?thesis using assms(1)
    by (auto simp add: coherent_def list_all_iff clear_jobs_by_status_eq)
qed



section \<open>Claims\<close>

subsection \<open>Job ids\<close>

text \<open>
  What \<open>submit_job\<close> appends: the same new entry at the tail of the queue and of the
  history, numbered one more than the history's current length.
\<close>

lemma submit_job_assigns_id:
  "queue_of (submit_job u c p m k f) =
     queue_of f @ [Job (int (length (history_of f)) + 1) u c p m k]
   \<and> history_of (submit_job u c p m k f) =
     history_of f @ [Job (int (length (history_of f)) + 1) u c p m k]"
  by (simp add: submit_job_eq)

text \<open>
  Claim C1 says that no two History entries ever share a \<open>job_id\<close> and that an id is never
  given out twice, with ids assigned as \<open>count(history) + 1\<close>. The length of the history
  shrinks when an entry is pruned, so the next submission repeats an id that is still in
  use: two submissions, a run of job 1 that exits with code 0, a reconcile that prunes
  it, and a third submission leave two History entries with id 2.
\<close>

theorem job_id_reused_after_pruning:
  "map job_id (history_of (disk (exec
      [Submit ''alice'' ''true'' 1 1048576 10, Submit ''bob'' ''true'' 1 1048576 10,
       Admit 1073741824 (shell_pid 4242), Finalize 0 0, Reconcile all_alive,
       Submit ''carol'' ''true'' 1 1048576 10]))) = [2, 2]
   \<and> map user (history_of (disk (exec
      [Submit ''alice'' ''true'' 1 1048576 10, Submit ''bob'' ''true'' 1 1048576 10,
       Admit 1073741824 (shell_pid 4242), Finalize 0 0, Reconcile all_alive,
       Submit ''carol'' ''true'' 1 1048576 10]))) = [''bob'', ''carol'']"
  by (simp add: exec_def boot_def submit_job_eq admit_eq finalize_eq update_job_status_eq
      Job_def replace_status_def shell_pid_def all_alive_def reconcile_job_def reclassify_def
      aborts_def)

subsection \<open>Reconciliation\<close>

text \<open>
  Claim C2, as the code has it. Take a History entry with status \<open>running\<close> and a pid,
  and let the sweep over the entries before it and after it pass without an exception,
  leaving \<open>xs'\<close> and \<open>ys'\<close> of them. When the process is missing, or is neither zombie
  nor dead and found not running, \<open>update_job_status\<close> puts the entry with status
  \<open>failed\<close> and no pid in its place. When the process is a zombie or dead it classifies
  the entry as \<open>executed\<close>, clears the pid and drops it: the saved History is \<open>xs'\<close>
  followed by \<open>ys'\<close>. A running process leaves the entry as it is. When the query raises
  another exception the reconcile ends with it and saves nothing.
\<close>

theorem reconcile_classification:
  assumes "history_of f = xs @ j # ys" "status j = ''running''" "pid j = Some p"
    and "update_loop probe xs [] = Inr xs'" "update_loop probe ys [] = Inr ys'"
  shows "(probe p = NoSuchProcess \<or> probe p = NotRunning \<longrightarrow>
            reconcile_job probe j = Inr (j\<lparr>status := ''failed'', pid := None\<rparr>)
          \<and> update_job_status probe f =
              (Inr (), save_jobs (queue_of f) (xs' @ j\<lparr>status := ''failed'', pid := None\<rparr> # ys')))
       \<and> (probe p = StatusZombie \<or> probe p = StatusDead \<longrightarrow>
            reconcile_job probe j = Inr (j\<lparr>status := ''executed'', pid := None\<rparr>)
          \<and> update_job_status probe f = (Inr (), save_jobs (queue_of f) (xs' @ ys')))
       \<and> (probe p = IsRunning \<longrightarrow>
            update_job_status probe f = (Inr (), save_jobs (queue_of f) (xs' @ j # ys')))
       \<and> (probe p = OtherException \<longrightarrow> update_job_status probe f = (Inl ProbeError, f))"
proof -
  have xs: "\<not> aborts probe xs"
      "xs' = [x \<leftarrow> map (reclassify probe) xs. status x \<noteq> ''executed'']"
    using assms(4) by (simp_all add: update_loop_eq split: if_splits)
  have ys: "\<not> aborts probe ys"
      "ys' = [x \<leftarrow> map (reclassify probe) ys. status x \<noteq> ''executed'']"
    using assms(5) by (simp_all add: update_loop_eq split: if_splits)
  have ab: "aborts probe (history_of f) = (reconcile_job probe j = Inl ProbeError)"
    using xs(1) ys(1) assms(1) by (simp add: aborts_def)
  show ?thesis
  proof (intro conjI impI)
    assume a: "probe p = NoSuchProcess \<or> probe p = NotRunning"
    then show r: "reconcile_job probe j = Inr (j\<lparr>status := ''failed'', pid := None\<rparr>)"
      using assms(2,3) by (auto simp add: reconcile_job_def)
    then show "update_job_status probe f =
        (Inr (), save_jobs (queue_of f) (xs' @ j\<lparr>status := ''failed'', pid := None\<rparr> # ys'))"
      using ab xs(2) ys(2) assms(1) by (simp add: update_job_status_eq reclassify_def)
  next
    assume a: "probe p = StatusZombie \<or> probe p = StatusDead"
    then show r: "reconcile_job probe j = Inr (j\<lparr>status := ''executed'', pid := None\<rparr>)"
      using assms(2,3) by (auto simp add: reconcile_job_def)
    then show "update_job_status probe f = (Inr (), save_jobs (queue_of f) (xs' @ ys'))"
      using ab xs(2) ys(2) assms(1) by (simp add: update_job_status_eq reclassify_def)
  next
    assume "probe p = IsRunning"
    then have "reconcile_job probe j = Inr j"
      using assms(2,3) by (simp add: reconcile_job_def)
    then show "update_job_status probe f = (Inr (), save_jobs (queue_of f) (xs' @ j # ys'))"
      using ab xs(2) ys(2) assms(1,2) by (simp add: update_job_status_eq reclassify_def)
  next
    assume "probe p = OtherException"
    then have "reconcile_job probe j = Inl ProbeError"
      using assms(2,3) by (simp add: reconcile_job_def)
    then show "update_job_status probe f = (Inl ProbeError, f)"
      using ab by (simp add: update_job_status_eq)
  qed
qed

text \<open>
  Scenario D with a second, queued job behind the stale record: a missing process turns
  the record into \<open>failed\<close> in place, a zombie makes it disappear, and a query that raises
  leaves the file alone.
\<close>

theorem reconcile_classification_witness:
  "history_of one_running = [] @ running1 # [job2] \<and> status running1 = ''running''
   \<and> pid running1 = Some 4242
   \<and> update_loop all_gone [] [] = Inr [] \<and> update_loop all_gone [job2] [] = Inr [job2]
   \<and> all_gone 4242 = NoSuchProcess
   \<and> update_job_status all_gone one_running = (Inr (), one_failed)
   \<and> all_zombie 4242 = StatusZombie
   \<and> update_job_status all_zombie one_running = (Inr (), Some ([job2], [job2]))
   \<and> all_alive 4242 = IsRunning
   \<and> update_job_status all_alive one_running = (Inr (), one_running)
   \<and> all_denied 4242 = OtherException
   \<and> update_job_status all_denied one_running = (Inl ProbeError, one_running)"
  using reconcile_classification [where f = one_running and xs = "[]" and j = running1
      and ys = "[job2]" and p = 4242 and probe = all_gone and xs' = "[]" and ys' = "[job2]"]
    reconcile_classification [where f = one_running and xs = "[]" and j = running1
      and ys = "[job2]" and p = 4242 and probe = all_zombie and xs' = "[]" and ys' = "[job2]"]
    reconcile_classification [where f = one_running and xs = "[]" and j = running1
      and ys = "[job2]" and p = 4242 and probe = all_alive and xs' = "[]" and ys' = "[job2]"]
    reconcile_classification [where f = one_running and xs = "[]" and j = running1
      and ys = "[job2]" and p = 4242 and probe = all_denied and xs' = "[]" and ys' = "[job2]"]
  by (simp add: one_running_def one_failed_def running1_def failed1_def job1_def job2_def
      Job_def all_gone_def all_zombie_def all_alive_def all_denied_def reconcile_job_def
      save_jobs_def)

text \<open>
  C2 as stated fails where the process is a zombie: the entry is classified \<open>executed\<close>,
  not \<open>failed\<close>, and leaves History.
\<close>

theorem reconcile_zombie_counterexample:
  "reconcile_job all_zombie running1 = Inr (running1\<lparr>status := ''executed'', pid := None\<rparr>)
   \<and> update_job_status all_zombie (Some ([], [running1])) = (Inr (), Some ([], []))"
  by (simp add: update_job_status_eq aborts_def reclassify_def reconcile_job_def all_zombie_def
      running1_def job1_def Job_def save_jobs_def)

subsection \<open>Admission\<close>

text \<open>
  Claim C3: when the queue is non-empty and the head job declares more memory than is
  available, \<open>run_next_job\<close> puts the head back and saves what it loaded: the file, hence
  the Queue with its order, History and every status, is unchanged, and the invocation
  ends on hold without calling the shell, whatever the shell would have done.
\<close>

theorem run_next_job_on_hold:
  assumes "queue_of f = job # rest" "available < memory job"
  shows "run_next_job available shell polls rc f = (Inr (OnHold (job_id job)), f)"
  using assms by (simp add: run_next_job_def admit_hold)

text \<open>Scenario B: job 1 needs 1 MiB and 1 KiB is available.\<close>

theorem run_next_job_on_hold_witness:
  "queue_of two_queued = job1 # [job2] \<and> (1024::int) < memory job1
   \<and> run_next_job 1024 (shell_pid 4242) 3 0 two_queued = (Inr (OnHold 1), two_queued)"
  using run_next_job_on_hold [of two_queued job1 "[job2]" 1024 "shell_pid 4242" 3 0]
  by (simp add: two_queued_def job1_def Job_def)

subsection \<open>The pid invariant\<close>

text \<open>
  Claim C4: in every file reached from the missing file by any sequence of transactions
  (submissions, admissions, checkpoints and final updates of any number of dispatchers,
  reconciliations, prioritisations, clears), each job record of Queue and History has a
  pid if and only if its status is \<open>running\<close>.
\<close>

theorem pid_iff_running_reachable:
  "j \<in> set (queue_of (disk (exec es))) \<union> set (history_of (disk (exec es))) \<Longrightarrow>
   (pid j \<noteq> None) = (status j = ''running'')"
  using exec_consistent [of es]
  by (auto simp add: consistent_def list_all_iff pid_iff_running_def)

text \<open>After a submission and its admission the record of job 1 is running with its pid.\<close>

theorem pid_iff_running_reachable_witness:
  "running1 \<in> set (queue_of (disk (exec
       [Submit ''alice'' ''true'' 1 1048576 10, Admit 1073741824 (shell_pid 4242)])))
     \<union> set (history_of (disk (exec
       [Submit ''alice'' ''true'' 1 1048576 10, Admit 1073741824 (shell_pid 4242)])))
   \<and> (pid running1 \<noteq> None) = (status running1 = ''running'')"
  using pid_iff_running_reachable [of running1
      "[Submit ''alice'' ''true'' 1 1048576 10, Admit 1073741824 (shell_pid 4242)]"]
  by (simp add: exec_def boot_def submit_job_eq admit_eq Job_def replace_status_def
      shell_pid_def running1_def job1_def)

subsection \<open>Pruning and retention\<close>




subsection \<open>Launch failure\<close>

text \<open>
  Claim C6, as the code has it: when the head job is admitted and \<open>subprocess.Popen\<close>
  raises, \<open>run_next_job\<close> ends with that error before anything is saved. The file is
  unchanged: the job is still at the head of Queue and its History entry is still
  \<open>queued\<close>, neither \<open>failed\<close> nor \<open>running\<close>; the next invocation meets the same head.
  A command that the shell starts and that exits with a non-zero code is recorded in
  History as \<open>failed\<close> with no pid, and has left the Queue.
\<close>

theorem launch_failure_leaves_file:
  assumes "queue_of f = job # rest" "memory job \<le> available"
  shows "(shell (command job) = OSError \<longrightarrow>
            run_next_job available shell polls rc f = (Inl LaunchError, f))
       \<and> (shell (command job) = Popen p \<and> rc \<noteq> 0 \<longrightarrow>
            queue_of (snd (run_next_job available shell polls rc f)) = rest
          \<and> job\<lparr>status := ''failed'', pid := None\<rparr>
               \<in> set (history_of (snd (run_next_job available shell polls rc f))))"
  using assms
  by (simp add: run_next_job_def admit_eq finalize_eq supervise_queue replace_status_last)

text \<open>
  Two queued jobs and enough memory: with a shell that cannot start a process the file
  stays as it is; with a child that exits with code 127 job 1 ends as \<open>failed\<close>.
\<close>

theorem launch_failure_leaves_file_witness:
  "queue_of two_queued = job1 # [job2] \<and> memory job1 \<le> 1073741824
   \<and> shell_down (command job1) = OSError
   \<and> run_next_job 1073741824 shell_down 0 0 two_queued = (Inl LaunchError, two_queued)
   \<and> shell_pid 4242 (command job1) = Popen 4242
   \<and> queue_of (snd (run_next_job 1073741824 (shell_pid 4242) 1 127 two_queued)) = [job2]
   \<and> failed1 \<in> set (history_of (snd (run_next_job 1073741824 (shell_pid 4242) 1 127 two_queued)))"
  using launch_failure_leaves_file [where f = two_queued and job = job1 and rest = "[job2]"
      and available = 1073741824 and shell = shell_down and polls = 0 and rc = 0]
    launch_failure_leaves_file [where f = two_queued and job = job1 and rest = "[job2]"
      and available = 1073741824 and shell = "shell_pid 4242" and p = 4242 and polls = 1
      and rc = 127]
  by (simp add: two_queued_def job1_def failed1_def Job_def shell_down_def shell_pid_def)

text \<open>
  C6 as stated fails: after the failed launch History holds the job as \<open>queued\<close>, not as
  \<open>failed\<close>, and the job is still in Queue.
\<close>

theorem launch_failure_counterexample:
  "fst (run_next_job 1073741824 shell_down 0 0 (Some ([job1], [job1]))) = Inl LaunchError
   \<and> map status (history_of (snd (run_next_job 1073741824 shell_down 0 0 (Some ([job1], [job1])))))
       = [''queued'']
   \<and> map job_id (queue_of (snd (run_next_job 1073741824 shell_down 0 0 (Some ([job1], [job1])))))
       = [1]"
  by (simp add: run_next_job_def admit_eq shell_down_def job1_def Job_def)

subsection \<open>Queue and History coherence\<close>

text \<open>
  Claim C7 says that every Queue entry is \<open>queued\<close> and has a History entry with the same
  field values. The history edit of the dispatcher drops every entry with the dispatched
  job's id; once an id is in use twice (see C1) it drops the entry of the other job as
  well. After the run above, the admission of bob's job 2 leaves carol's job 2 in Queue
  while History holds bob's running record only. With pairwise different ids no
  transaction breaks the coherence (\<open>step_coherent\<close>).
\<close>

theorem queue_entry_without_history_entry:
  "queue_of (disk (exec
      [Submit ''alice'' ''true'' 1 1048576 10, Submit ''bob'' ''true'' 1 1048576 10,
       Admit 1073741824 (shell_pid 4242), Finalize 0 0, Reconcile all_alive,
       Submit ''carol'' ''true'' 1 1048576 10, Admit 1073741824 (shell_pid 4243)]))
     = [Job 2 ''carol'' ''true'' 1 1048576 10]
   \<and> history_of (disk (exec
      [Submit ''alice'' ''true'' 1 1048576 10, Submit ''bob'' ''true'' 1 1048576 10,
       Admit 1073741824 (shell_pid 4242), Finalize 0 0, Reconcile all_alive,
       Submit ''carol'' ''true'' 1 1048576 10, Admit 1073741824 (shell_pid 4243)]))
     = [(Job 2 ''bob'' ''true'' 1 1048576 10)\<lparr>status := ''running'', pid := Some 4243\<rparr>]"
  by (simp add: exec_def boot_def submit_job_eq admit_eq finalize_eq update_job_status_eq
      Job_def replace_status_def shell_pid_def all_alive_def reconcile_job_def reclassify_def
      aborts_def)

subsection \<open>Operational mutators\<close>

text \<open>
  Claim C8: when some Queue entry has the given id, \<open>prioritize_job\<close> takes the first such
  entry out of its place and puts it at the front; the entries before and after it keep
  their order and History is unchanged. When no Queue entry has the id, the file is
  unchanged.
\<close>

theorem prioritize_job_moves_to_front:
  "(jid \<in> job_id ` set (queue_of f) \<longrightarrow>
      (\<exists>xs job ys. queue_of f = xs @ job # ys \<and> job_id job = jid
         \<and> (\<forall>x \<in> set xs. job_id x \<noteq> jid)
         \<and> prioritize_job jid f = save_jobs (job # xs @ ys) (history_of f)))
   \<and> (jid \<notin> job_id ` set (queue_of f) \<longrightarrow> prioritize_job jid f = f)"
proof (intro conjI impI)
  assume "jid \<in> job_id ` set (queue_of f)"
  then have "\<exists>x \<in> set (queue_of f). job_id x = jid" by auto
  then have "\<exists>xs job ys. queue_of f = xs @ job # ys \<and> job_id job = jid \<and>
      (\<forall>x \<in> set xs. \<not> job_id x = jid)"
    by (rule split_list_first_prop)
  then obtain xs job ys where d: "queue_of f = xs @ job # ys" "job_id job = jid"
      "\<forall>x \<in> set xs. \<not> job_id x = jid"
    by blast
  then have "prioritize_job jid f = save_jobs (job # xs @ ys) (history_of f)"
    by (intro prioritize_job_found) simp_all
  with d show "\<exists>xs job ys. queue_of f = xs @ job # ys \<and> job_id job = jid \<and>
       (\<forall>x \<in> set xs. job_id x \<noteq> jid) \<and> prioritize_job jid f = save_jobs (job # xs @ ys) (history_of f)"
    by blast
next
  assume "jid \<notin> job_id ` set (queue_of f)"
  then show "prioritize_job jid f = f"
    by (intro prioritize_job_absent) auto
qed

text \<open>Scenario C: job 2 moves in front of job 1; an unknown id changes nothing.\<close>

theorem prioritize_job_moves_to_front_witness:
  "2 \<in> job_id ` set (queue_of two_queued)
   \<and> prioritize_job 2 two_queued = Some ([job2, job1], [job1, job2])
   \<and> 7 \<notin> job_id ` set (queue_of two_queued)
   \<and> prioritize_job 7 two_queued = two_queued"
  using prioritize_job_moves_to_front [of 2 two_queued]
    prioritize_job_moves_to_front [of 7 two_queued]
  by (simp add: two_queued_def job1_def job2_def Job_def prioritize_job_eq save_jobs_def)

text \<open>
  Claim C9: after \<open>clear_jobs_by_status s\<close> no entry of Queue or History has status \<open>s\<close>,
  and Queue and History are the former lists without those entries: every entry with
  another status is kept, as often as it occurred and in the same order.
\<close>

theorem clear_jobs_by_status_exact:
  "(\<forall>j \<in> set (queue_of (clear_jobs_by_status s f)) \<union> set (history_of (clear_jobs_by_status s f)).
      status j \<noteq> s)
   \<and> queue_of (clear_jobs_by_status s f) = [j \<leftarrow> queue_of f. status j \<noteq> s]
   \<and> history_of (clear_jobs_by_status s f) = [j \<leftarrow> history_of f. status j \<noteq> s]"
  by (auto simp add: clear_jobs_by_status_eq)

text \<open>Scenario E: clearing \<open>failed\<close> drops failed job 1 and keeps queued job 2.\<close>

theorem clear_jobs_by_status_exact_witness:
  "queue_of (clear_jobs_by_status ''failed'' one_failed) = [job2]
   \<and> history_of (clear_jobs_by_status ''failed'' one_failed) = [job2]
   \<and> status job2 \<noteq> ''failed''"
  using clear_jobs_by_status_exact [of "''failed''" one_failed]
  by (simp add: one_failed_def failed1_def job1_def job2_def Job_def)

text \<open>
  Claim C10: \<open>update_job_status\<close> saves the Queue it loaded; only History is rewritten.
  When it is left by an exception the file, and so the Queue, is untouched.
\<close>

theorem update_job_status_keeps_queue:
  "queue_of (snd (update_job_status probe f)) = queue_of f"
  by (simp add: update_job_status_eq)

end
